theory Spec2Isabelle
  imports Main "HOL-Library.AList"
begin

section \<open>JavaScript values\<close>

text \<open>
  The module \<^verbatim>\<open>index.js\<close> of http-errors is dynamically typed, so the embedding starts
  with the values it can meet. A number is an integer, \<^verbatim>\<open>NaN\<close> or one of the two
  infinities; \<^verbatim>\<open>-0\<close> is identified with \<^verbatim>\<open>0\<close> (no operation of the module tells them
  apart) and numbers with a fractional part are outside the model. Objects live in a
  heap and are denoted by their address, so that two references to the same object are
  the same value.
\<close>

type_synonym addr = nat

datatype jsnum = Fin int | NaN | PosInf | NegInf

datatype jsval =
    Undefined
  | Null
  | Bool bool
  | Num jsnum
  | Str string
  | Ref addr
  | Func nat
  | Symbol nat
  | BigInt int

text \<open>The \<^verbatim>\<open>typeof\<close> operator.\<close>

fun typeof :: "jsval \<Rightarrow> string" where
  "typeof Undefined = ''undefined''"
| "typeof Null = ''object''"
| "typeof (Bool b) = ''boolean''"
| "typeof (Num n) = ''number''"
| "typeof (Str s) = ''string''"
| "typeof (Ref a) = ''object''"
| "typeof (Func f) = ''function''"
| "typeof (Symbol y) = ''symbol''"
| "typeof (BigInt i) = ''bigint''"

text \<open>Truthiness, as \<^verbatim>\<open>!v\<close>, \<^verbatim>\<open>a || b\<close> and \<^verbatim>\<open>c ? a : b\<close> test it.\<close>

fun truthy :: "jsval \<Rightarrow> bool" where
  "truthy Undefined = False"
| "truthy Null = False"
| "truthy (Bool b) = b"
| "truthy (Num (Fin i)) = (i \<noteq> 0)"
| "truthy (Num NaN) = False"
| "truthy (Num PosInf) = True"
| "truthy (Num NegInf) = True"
| "truthy (Str s) = (s \<noteq> [])"
| "truthy (Ref a) = True"
| "truthy (Func f) = True"
| "truthy (Symbol y) = True"
| "truthy (BigInt i) = (i \<noteq> 0)"

definition js_or :: "jsval \<Rightarrow> jsval \<Rightarrow> jsval" where
  "js_or a b = (if truthy a then a else b)"

text \<open>Strict equality \<^verbatim>\<open>===\<close>: \<^verbatim>\<open>NaN\<close> is not equal to itself.\<close>

definition strict_eq :: "jsval \<Rightarrow> jsval \<Rightarrow> bool" where
  "strict_eq a b = (a = b \<and> a \<noteq> Num NaN)"

text \<open>The comparisons \<^verbatim>\<open><\<close> and \<^verbatim>\<open>>=\<close> on numbers; both are false at \<^verbatim>\<open>NaN\<close>.\<close>

fun num_less :: "jsnum \<Rightarrow> jsnum \<Rightarrow> bool" where
  "num_less NaN y = False"
| "num_less x NaN = False"
| "num_less (Fin a) (Fin b) = (a < b)"
| "num_less (Fin a) PosInf = True"
| "num_less (Fin a) NegInf = False"
| "num_less PosInf y = False"
| "num_less NegInf NegInf = False"
| "num_less NegInf y = True"

fun num_ge :: "jsnum \<Rightarrow> jsnum \<Rightarrow> bool" where
  "num_ge NaN y = False"
| "num_ge x NaN = False"
| "num_ge x y = (\<not> num_less x y)"

subsection \<open>Numbers as strings\<close>

text \<open>
  \<^verbatim>\<open>String(n)\<close>, which is also the property key \<^verbatim>\<open>obj[n]\<close> reads and writes: the decimal
  digits of an integer, with a minus sign when it is negative.
\<close>

definition digit_char :: "nat \<Rightarrow> char" where
  "digit_char d = ''0123456789'' ! d"

fun nat_to_string :: "nat \<Rightarrow> string" where
  "nat_to_string n =
     (if n < 10 then [digit_char n] else nat_to_string (n div 10) @ [digit_char (n mod 10)])"

declare nat_to_string.simps [simp del]

fun number_to_string :: "jsnum \<Rightarrow> string" where
  "number_to_string (Fin i) =
     (if i < 0 then CHR ''-'' # nat_to_string (nat (- i)) else nat_to_string (nat i))"
| "number_to_string NaN = ''NaN''"
| "number_to_string PosInf = ''Infinity''"
| "number_to_string NegInf = ''-Infinity''"

text \<open>
  \<^verbatim>\<open>Number(s)\<close> on the strings \<^verbatim>\<open>codeClass\<close> builds, one character followed by
  \<^verbatim>\<open>00\<close>: digits give their decimal value, \<^verbatim>\<open>-00\<close> gives zero, any other text gives
  \<^verbatim>\<open>NaN\<close>.
\<close>

definition is_digit :: "char \<Rightarrow> bool" where
  "is_digit c = ((48::nat) \<le> of_char c \<and> of_char c \<le> (57::nat))"

definition digit_val :: "char \<Rightarrow> nat" where
  "digit_val c = of_char c - 48"

definition digits_to_nat :: "string \<Rightarrow> nat" where
  "digits_to_nat s = foldl (\<lambda>acc c. acc * 10 + digit_val c) 0 s"

fun string_to_number :: "string \<Rightarrow> jsnum" where
  "string_to_number [] = Fin 0"
| "string_to_number (c # cs) =
     (if c = CHR ''-'' \<and> cs \<noteq> [] \<and> list_all is_digit cs then Fin (- int (digits_to_nat cs))
      else if list_all is_digit (c # cs) then Fin (int (digits_to_nat (c # cs)))
      else NaN)"

text \<open>
  \<^verbatim>\<open>
  function codeClass (status) {
    return Number(String(status).charAt(0) + '00')
  }
  \<close>
  \<^verbatim>\<open>charAt(0)\<close> of an empty string is the empty string.
\<close>

definition codeClass :: "jsnum \<Rightarrow> jsnum" where
  "codeClass status = string_to_number (take 1 (number_to_string status) @ ''00'')"

section \<open>Objects, classes and the heap\<close>

text \<open>
  A synthesized concrete type is known by what \<^verbatim>\<open>createClientErrorConstructor\<close> and
  \<^verbatim>\<open>createServerErrorConstructor\<close> close over: which of the two made it, the status
  code and the class name.
\<close>

record cls =
  server :: bool
  code :: int
  className :: string

text \<open>
  What \<^verbatim>\<open>instanceof\<close> can tell about an object: a plain object (anything that is not an
  \<^verbatim>\<open>Error\<close>), an \<^verbatim>\<open>Error\<close> that is not an \<^verbatim>\<open>HttpError\<close>, an instance of a subclass of
  \<^verbatim>\<open>HttpError\<close> declared outside the module, or an instance of a synthesized concrete
  type.
\<close>

datatype proto = PlainObject | ErrorLike | HttpErrorSub | Concrete cls

text \<open>
  An object carries its own enumerable data properties, in insertion order. Accessors,
  frozen objects, symbol keys and enumerable properties inherited from a prototype are
  outside the model, and so is the \<^verbatim>\<open>stack\<close> property.
\<close>

record obj =
  proto :: proto
  own_props :: "(string \<times> jsval) list"

record state =
  heap :: "addr \<Rightarrow> obj"
  next_addr :: addr
  deprecations :: nat

datatype error = TypeError string

definition instanceof_Error :: "obj \<Rightarrow> bool" where
  "instanceof_Error ob = (proto ob \<noteq> PlainObject)"


definition instanceof_cls :: "obj \<Rightarrow> cls \<Rightarrow> bool" where
  "instanceof_cls ob C = (proto ob = Concrete C)"

text \<open>
  Reading a property: the object's own value, else what \<^verbatim>\<open>Error.prototype\<close> supplies
  (\<^verbatim>\<open>message\<close> is the empty string and \<^verbatim>\<open>name\<close> is \<^verbatim>\<open>Error\<close>), else \<^verbatim>\<open>undefined\<close>.
\<close>

definition get_prop :: "obj \<Rightarrow> string \<Rightarrow> jsval" where
  "get_prop ob k =
     (case map_of (own_props ob) k of
        Some v \<Rightarrow> v
      | None \<Rightarrow>
          if instanceof_Error ob \<and> k = ''message'' then Str []
          else if instanceof_Error ob \<and> k = ''name'' then Str ''Error''
          else Undefined)"

definition get :: "state \<Rightarrow> addr \<Rightarrow> string \<Rightarrow> jsval" where
  "get s a k = get_prop (heap s a) k"

text \<open>Writing a property, \<^verbatim>\<open>obj[k] = v\<close>, makes it an own property of the object.\<close>

definition set_prop :: "addr \<Rightarrow> string \<Rightarrow> jsval \<Rightarrow> state \<Rightarrow> state" where
  "set_prop a k v s =
     s\<lparr>heap := (heap s)(a := (heap s a)\<lparr>own_props := AList.update k v (own_props (heap s a))\<rparr>)\<rparr>"

section \<open>The status registry and the identifier function\<close>

text \<open>
  The packages \<^verbatim>\<open>statuses\<close>, \<^verbatim>\<open>toidentifier\<close> and \<^verbatim>\<open>depd\<close> are not part of the
  repository, so they are parameters. The registry is the list of its codes with their
  reason phrases: \<^verbatim>\<open>statuses.codes\<close> is the list of its first components and
  \<^verbatim>\<open>statuses.message\<close> is the lookup in it. \<^verbatim>\<open>toIdentifier\<close> is any function from strings to
  strings. A call of \<^verbatim>\<open>deprecate\<close> is counted in the state and does nothing else.
\<close>

type_synonym registry = "(int \<times> string) list"

text \<open>\<^verbatim>\<open>statuses.message[n]\<close> for a number \<^verbatim>\<open>n\<close>.\<close>

fun statuses_message :: "registry \<Rightarrow> jsnum \<Rightarrow> jsval" where
  "statuses_message reg (Fin i) = (case map_of reg i of Some p \<Rightarrow> Str p | None \<Rightarrow> Undefined)"
| "statuses_message reg n = Undefined"

text \<open>
  \<^verbatim>\<open>
  function toClassName (name) {
    return name.slice(-5) === 'Error' ? name : name + 'Error'
  }
  \<close>
\<close>

definition toClassName :: "string \<Rightarrow> string" where
  "toClassName name =
     (if drop (length name - 5) name = ''Error'' then name else name @ ''Error'')"

section \<open>The constructors\<close>

text \<open>
  \<^verbatim>\<open>new Error(message)\<close>, and \<^verbatim>\<open>super(message)\<close> in a subclass: a fresh object whose
  \<^verbatim>\<open>message\<close> is an own property unless the argument is \<^verbatim>\<open>undefined\<close>. The messages
  the module passes are strings or \<^verbatim>\<open>undefined\<close>.
\<close>

definition Error_new :: "proto \<Rightarrow> jsval \<Rightarrow> state \<Rightarrow> addr \<times> state" where
  "Error_new p message s =
     (let a = next_addr s;
          ob = \<lparr>proto = p,
                own_props = (if message = Undefined then [] else [(''message'', message)])\<rparr>
      in (a, s\<lparr>heap := (heap s)(a := ob), next_addr := Suc a\<rparr>))"

text \<open>
  \<^verbatim>\<open>
  class HttpError extends Error {
    constructor (status, message) {
      if (new.target === HttpError) {
        throw new TypeError('cannot construct abstract class')
      }
      super(message)
      this.status = this.statusCode = status
    }
  }
  \<close>
  \<^verbatim>\<open>new.target\<close> is the class being constructed: \<^verbatim>\<open>HttpError\<close> itself, a subclass declared
  outside the module, or a synthesized concrete type.
\<close>

datatype new_target = NT_HttpError | NT_Subclass | NT_Concrete cls

fun proto_of_target :: "new_target \<Rightarrow> proto" where
  "proto_of_target NT_HttpError = HttpErrorSub"
| "proto_of_target NT_Subclass = HttpErrorSub"
| "proto_of_target (NT_Concrete C) = Concrete C"

definition HttpError_constructor ::
  "new_target \<Rightarrow> jsval \<Rightarrow> jsval \<Rightarrow> state \<Rightarrow> error + addr \<times> state" where
  "HttpError_constructor nt status message s =
     (if nt = NT_HttpError then Inl (TypeError ''cannot construct abstract class'')
      else
        let (this, s1) = Error_new (proto_of_target nt) message s;
            s2 = set_prop this ''statusCode'' status s1;
            s3 = set_prop this ''status'' status s2
        in Inr (this, s3))"

text \<open>
  \<^verbatim>\<open>
  class ClientError extends HttpError {
    constructor (message) {
      const msg = message != null ? message : statuses.message[code]
      super(code, msg)
      this.name = className
      this.expose = true
    }
  }
  \<close>
  \<^verbatim>\<open>ServerError\<close> is the same with \<^verbatim>\<open>this.expose = false\<close>. The argument is a string or is
  absent (\<^verbatim>\<open>undefined\<close> or \<^verbatim>\<open>null\<close>, here \<open>None\<close>).
\<close>

definition CodeError_constructor ::
  "registry \<Rightarrow> cls \<Rightarrow> string option \<Rightarrow> state \<Rightarrow> error + addr \<times> state" where
  "CodeError_constructor reg C message s =
     (let msg = (case message of Some m \<Rightarrow> Str m | None \<Rightarrow> statuses_message reg (Fin (code C)))
      in case HttpError_constructor (NT_Concrete C) (Num (Fin (code C))) msg s of
           Inl e \<Rightarrow> Inl e
         | Inr (this, s1) \<Rightarrow>
             let s2 = set_prop this ''name'' (Str (className C)) s1;
                 s3 = set_prop this ''expose'' (Bool (\<not> server C)) s2
             in Inr (this, s3))"

text \<open>
  \<^verbatim>\<open>createClientErrorConstructor (name, code)\<close> and \<^verbatim>\<open>createServerErrorConstructor\<close>.
  \<^verbatim>\<open>nameFunc\<close> gives the class the name \<^verbatim>\<open>className\<close> when the runtime allows it, and
  changes nothing else.
\<close>

definition createClientErrorConstructor :: "string \<Rightarrow> int \<Rightarrow> cls" where
  "createClientErrorConstructor name c =
     \<lparr>server = False, code = c, className = toClassName name\<rparr>"

definition createServerErrorConstructor :: "string \<Rightarrow> int \<Rightarrow> cls" where
  "createServerErrorConstructor name c =
     \<lparr>server = True, code = c, className = toClassName name\<rparr>"

section \<open>The exported table\<close>

text \<open>
  The properties of \<^verbatim>\<open>module.exports\<close> that hold a synthesized type, by property key.
  The loop runs over the entries of the registry: each is a code of \<^verbatim>\<open>statuses.codes\<close>
  together with the phrase \<^verbatim>\<open>statuses.message[code]\<close>.
  \<^verbatim>\<open>
  function populateConstructorExports (exports, codes) {
    codes.forEach(function forEachCode (code) {
      const name = toIdentifier(statuses.message[code])
      let CodeError
      switch (codeClass(code)) {
        case 400: CodeError = createClientErrorConstructor(name, code); break
        case 500: CodeError = createServerErrorConstructor(name, code); break
      }
      if (CodeError) {
        exports[code] = CodeError
        exports[name] = CodeError
      }
    })
  }
  \<close>
\<close>

type_synonym exports = "(string \<times> cls) list"

definition forEachCode :: "(string \<Rightarrow> string) \<Rightarrow> int \<times> string \<Rightarrow> exports \<Rightarrow> exports" where
  "forEachCode toIdentifier entry ex =
     (let c = fst entry;
          name = toIdentifier (snd entry);
          CodeError =
            (if codeClass (Fin c) = Fin 400 then Some (createClientErrorConstructor name c)
             else if codeClass (Fin c) = Fin 500 then Some (createServerErrorConstructor name c)
             else None)
      in case CodeError of
           None \<Rightarrow> ex
         | Some C \<Rightarrow> AList.update name C (AList.update (number_to_string (Fin c)) C ex))"

definition populateConstructorExports ::
  "(string \<Rightarrow> string) \<Rightarrow> registry \<Rightarrow> exports \<Rightarrow> exports" where
  "populateConstructorExports toIdentifier reg ex = fold (forEachCode toIdentifier) reg ex"

text \<open>\<^verbatim>\<open>createError[n]\<close> for a number \<^verbatim>\<open>n\<close>.\<close>

definition exports_at :: "exports \<Rightarrow> jsnum \<Rightarrow> cls option" where
  "exports_at ex n = map_of ex (number_to_string n)"

section \<open>The factory\<close>

text \<open>
  The local variables of \<^verbatim>\<open>createError\<close> that the scan of the arguments assigns.
  \<^verbatim>\<open>err\<close> is \<^verbatim>\<open>undefined\<close> (here \<open>None\<close>) or an object that is an \<^verbatim>\<open>Error\<close>; \<^verbatim>\<open>msg\<close> is
  \<^verbatim>\<open>undefined\<close> or a string; \<^verbatim>\<open>status\<close> is any value, since it may be read from a
  property of \<^verbatim>\<open>err\<close>; \<^verbatim>\<open>props\<close> is an object that is not an \<^verbatim>\<open>Error\<close>, or else \<open>None\<close>,
  which stands for the fresh \<^verbatim>\<open>{}\<close> it starts with and for \<^verbatim>\<open>null\<close>: neither has a key to
  enumerate.
\<close>

record vars =
  v_err :: "addr option"
  v_msg :: "string option"
  v_status :: jsval
  v_props :: "addr option"

definition initial_vars :: vars where
  "initial_vars = \<lparr>v_err = None, v_msg = None, v_status = Num (Fin 500), v_props = None\<rparr>"

definition unsupported :: "nat \<Rightarrow> jsval \<Rightarrow> error" where
  "unsupported i arg =
     TypeError (''argument #'' @ number_to_string (Fin (int (i + 1))) @
                '' unsupported type '' @ typeof arg)"

text \<open>
  The body of the loop, by the type of \<^verbatim>\<open>arg\<close>:
  \<^verbatim>\<open>
  if (type === 'object' && arg instanceof Error) {
    err = arg
    status = err.status || err.statusCode || status
  } else if (type === 'number' && i === 0) {
    status = arg
  } else if (type === 'string') {
    msg = arg
  } else if (type === 'object') {
    props = arg
  } else {
    throw new TypeError('argument #' + (i + 1) + ' unsupported type ' + type)
  }
  \<close>
\<close>

definition scan_arg :: "(addr \<Rightarrow> obj) \<Rightarrow> nat \<Rightarrow> jsval \<Rightarrow> vars \<Rightarrow> error + vars" where
  "scan_arg h i arg v =
     (case arg of
        Ref a \<Rightarrow>
          if instanceof_Error (h a)
          then Inr (v\<lparr>v_err := Some a,
                      v_status := js_or (js_or (get_prop (h a) ''status'')
                                               (get_prop (h a) ''statusCode'')) (v_status v)\<rparr>)
          else Inr (v\<lparr>v_props := Some a\<rparr>)
      | Null \<Rightarrow> Inr (v\<lparr>v_props := None\<rparr>)
      | Num n \<Rightarrow> if i = 0 then Inr (v\<lparr>v_status := Num n\<rparr>) else Inl (unsupported i arg)
      | Str m \<Rightarrow> Inr (v\<lparr>v_msg := Some m\<rparr>)
      | _ \<Rightarrow> Inl (unsupported i arg))"

fun scan_args :: "(addr \<Rightarrow> obj) \<Rightarrow> nat \<Rightarrow> jsval list \<Rightarrow> vars \<Rightarrow> error + vars" where
  "scan_args h i [] v = Inr v"
| "scan_args h i (arg # rest) v =
     (case scan_arg h i arg v of
        Inl e \<Rightarrow> Inl e
      | Inr v' \<Rightarrow> scan_args h (Suc i) rest v')"

text \<open>\<^verbatim>\<open>status < 400 || status >= 600\<close> for a number.\<close>

definition out_of_range :: "jsnum \<Rightarrow> bool" where
  "out_of_range n = (num_less n (Fin 400) \<or> num_ge n (Fin 600))"

text \<open>
  \<^verbatim>\<open>
  if (typeof status === 'number' && (status < 400 || status >= 600)) {
    deprecate('non-error status code; use only 4xx or 5xx status codes')
  }
  \<close>
\<close>

definition advise :: "jsval \<Rightarrow> state \<Rightarrow> state" where
  "advise status s =
     (case status of
        Num n \<Rightarrow> if out_of_range n then s\<lparr>deprecations := Suc (deprecations s)\<rparr> else s
      | _ \<Rightarrow> s)"

text \<open>
  \<^verbatim>\<open>
  if (typeof status !== 'number' ||
    (!statuses.message[status] && (status < 400 || status >= 600))) {
    status = 500
  }
  \<close>
  Afterwards \<^verbatim>\<open>status\<close> is a number.
\<close>

definition resolve_status :: "registry \<Rightarrow> jsval \<Rightarrow> jsnum" where
  "resolve_status reg status =
     (case status of
        Num n \<Rightarrow> if \<not> truthy (statuses_message reg n) \<and> out_of_range n then Fin 500 else n
      | _ \<Rightarrow> Fin 500)"

text \<open>\<^verbatim>\<open>const HttpError = createError[status] || createError[codeClass(status)]\<close>\<close>

definition resolve_constructor :: "exports \<Rightarrow> jsnum \<Rightarrow> cls option" where
  "resolve_constructor ex status =
     (case exports_at ex status of
        Some C \<Rightarrow> Some C
      | None \<Rightarrow> exports_at ex (codeClass status))"

definition opt_str :: "string option \<Rightarrow> jsval" where
  "opt_str m = (case m of None \<Rightarrow> Undefined | Some t \<Rightarrow> Str t)"

text \<open>
  \<^verbatim>\<open>
  err = HttpError
    ? new HttpError(msg)
    : new Error(msg || statuses.message[status])
  \<close>
\<close>

definition construct_error ::
  "registry \<Rightarrow> cls option \<Rightarrow> string option \<Rightarrow> jsnum \<Rightarrow> state \<Rightarrow> error + addr \<times> state" where
  "construct_error reg HttpError msg status s =
     (case HttpError of
        Some C \<Rightarrow> CodeError_constructor reg C msg s
      | None \<Rightarrow> Inr (Error_new ErrorLike (js_or (opt_str msg) (statuses_message reg status)) s))"

text \<open>
  \<^verbatim>\<open>
  if (!HttpError || !(err instanceof HttpError) || err.status !== status) {
    err.expose = status < 500
    err.status = err.statusCode = status
  }
  \<close>
\<close>

definition must_decorate :: "cls option \<Rightarrow> addr \<Rightarrow> jsnum \<Rightarrow> state \<Rightarrow> bool" where
  "must_decorate HttpError e status s =
     (case HttpError of
        None \<Rightarrow> True
      | Some C \<Rightarrow> \<not> instanceof_cls (heap s e) C \<or> \<not> strict_eq (get s e ''status'') (Num status))"

definition decorate :: "addr \<Rightarrow> jsnum \<Rightarrow> state \<Rightarrow> state" where
  "decorate e status s =
     (let s1 = set_prop e ''expose'' (Bool (num_less status (Fin 500))) s;
          s2 = set_prop e ''statusCode'' (Num status) s1
      in set_prop e ''status'' (Num status) s2)"

text \<open>
  \<^verbatim>\<open>
  for (const key in props) {
    if (key !== 'status' && key !== 'statusCode') {
      err[key] = props[key]
    }
  }
  \<close>
  The keys are those \<^verbatim>\<open>props\<close> has when the loop starts; each value is read when its key
  is visited.
\<close>

definition copy_key :: "addr \<Rightarrow> addr \<Rightarrow> string \<Rightarrow> state \<Rightarrow> state" where
  "copy_key e b key s =
     (if key \<noteq> ''status'' \<and> key \<noteq> ''statusCode'' then set_prop e key (get s b key) s else s)"

definition merge_props :: "addr \<Rightarrow> addr option \<Rightarrow> state \<Rightarrow> state" where
  "merge_props e props s =
     (case props of
        None \<Rightarrow> s
      | Some b \<Rightarrow> fold (copy_key e b) (map fst (own_props (heap s b))) s)"

text \<open>
  \<^verbatim>\<open>function createError (...args)\<close>, for the table \<open>ex\<close> of exported constructors and
  the registry \<open>reg\<close>: a thrown error on the left, the returned value and the state it
  leaves on the right.
\<close>

definition createError ::
  "exports \<Rightarrow> registry \<Rightarrow> jsval list \<Rightarrow> state \<Rightarrow> error + jsval \<times> state" where
  "createError ex reg args s =
     (case scan_args (heap s) 0 args initial_vars of
        Inl e \<Rightarrow> Inl e
      | Inr v \<Rightarrow>
          let s1 = advise (v_status v) s;
              status = resolve_status reg (v_status v);
              HttpError = resolve_constructor ex status
          in case (case v_err v of
                     None \<Rightarrow> construct_error reg HttpError (v_msg v) status s1
                   | Some e \<Rightarrow> Inr (e, s1)) of
               Inl e \<Rightarrow> Inl e
             | Inr (e, s2) \<Rightarrow>
                 let s3 = (if must_decorate HttpError e status s2 then decorate e status s2
                           else s2)
                 in Inr (Ref e, merge_props e (v_props v) s3))"

section \<open>The recognition predicate\<close>


section \<open>Notions the properties are stated with\<close>

text \<open>
  An argument fits none of the four roles of the factory (error object, numeric status in
  first position, string message, property bag) when it is neither an object nor a
  string, and is not a number in first position. Positions count from zero here.
\<close>

definition fits_no_role :: "nat \<Rightarrow> jsval \<Rightarrow> bool" where
  "fits_no_role i arg =
     (typeof arg \<noteq> ''object'' \<and> typeof arg \<noteq> ''string'' \<and>
      \<not> (typeof arg = ''number'' \<and> i = 0))"

text \<open>
  The error objects among the arguments and the property bags among them (the objects
  that are not error objects, \<^verbatim>\<open>null\<close> included), each in the order of the call.
\<close>

definition is_error_object :: "(addr \<Rightarrow> obj) \<Rightarrow> jsval \<Rightarrow> bool" where
  "is_error_object h arg = (case arg of Ref a \<Rightarrow> instanceof_Error (h a) | _ \<Rightarrow> False)"

definition error_objects :: "(addr \<Rightarrow> obj) \<Rightarrow> jsval list \<Rightarrow> jsval list" where
  "error_objects h args = filter (is_error_object h) args"







definition reserved :: "string set" where
  "reserved = {''status'', ''statusCode''}"



text \<open>
  What the factory and the exported table need from the registry and from
  \<^verbatim>\<open>toIdentifier\<close>: no code is listed twice, no two phrases give the same identifier, and no
  identifier is the decimal string of a listed code (an identifier does not start with a
  digit). Otherwise a later assignment to \<^verbatim>\<open>exports[code]\<close> or \<^verbatim>\<open>exports[name]\<close> would
  replace an earlier one.
\<close>

definition wf_registry :: "(string \<Rightarrow> string) \<Rightarrow> registry \<Rightarrow> bool" where
  "wf_registry toIdentifier reg =
     (distinct (map fst reg) \<and> distinct (map (\<lambda>entry. toIdentifier (snd entry)) reg) \<and>
      (\<forall>entry \<in> set reg. \<forall>other \<in> set reg.
         toIdentifier (snd other) \<noteq> number_to_string (Fin (fst entry))))"

text \<open>The concrete type \<^verbatim>\<open>forEachCode\<close> synthesizes for a code in the range 400 to 599.\<close>

definition synthesized :: "(string \<Rightarrow> string) \<Rightarrow> int \<Rightarrow> string \<Rightarrow> cls" where
  "synthesized toIdentifier c phrase =
     \<lparr>server = (500 \<le> c), code = c, className = toClassName (toIdentifier phrase)\<rparr>"

section \<open>Observing a result\<close>

text \<open>
  What a call of the factory left behind: the value it returned, a property of the object
  it returned, an own property of that object, the next free address, and whether
  \<^verbatim>\<open>isHttpError\<close> recognizes the value.
\<close>

definition returned :: "error + jsval \<times> state \<Rightarrow> jsval option" where
  "returned r = (case r of Inl e \<Rightarrow> None | Inr (v, s) \<Rightarrow> Some v)"

definition result_get :: "error + jsval \<times> state \<Rightarrow> string \<Rightarrow> jsval option" where
  "result_get r k =
     (case r of
        Inl e \<Rightarrow> None
      | Inr (v, s) \<Rightarrow> (case v of Ref a \<Rightarrow> Some (get s a k) | _ \<Rightarrow> None))"




text \<open>What a constructor left behind: the property \<open>k\<close> of the object it built.\<close>

definition built_get :: "error + addr \<times> state \<Rightarrow> string \<Rightarrow> jsval option" where
  "built_get r k = (case r of Inl e \<Rightarrow> None | Inr (a, s) \<Rightarrow> Some (get s a k))"

section \<open>A concrete registry\<close>

text \<open>
  Modelled from the spec: the packages \<^verbatim>\<open>statuses\<close> and \<^verbatim>\<open>toidentifier\<close> are missing from
  the sources. The spec describes the first as giving each supported status code its
  canonical reason phrase and the second as turning a phrase into an identifier, with
  \<^verbatim>\<open>Not Found\<close> becoming \<^verbatim>\<open>NotFound\<close>. The definitions below are a small registry of that
  kind, used for the concrete instances only; the general theorems hold for every
  registry and every identifier function that meet their hypotheses.
\<close>

definition sample_statuses :: registry where
  "sample_statuses =
     [(200, ''OK''), (400, ''Bad Request''), (403, ''Forbidden''), (404, ''Not Found''),
      (500, ''Internal Server Error''), (503, ''Service Unavailable'')]"

definition sample_toIdentifier :: "string \<Rightarrow> string" where
  "sample_toIdentifier phrase = filter (\<lambda>c. c \<noteq> CHR '' '') phrase"

definition sample_exports :: exports where
  "sample_exports = populateConstructorExports sample_toIdentifier sample_statuses []"

text \<open>The concrete type for 404 of this registry.\<close>

definition NotFoundError :: cls where
  "NotFoundError = createClientErrorConstructor ''NotFound'' 404"

section \<open>States and objects for the concrete instances\<close>

text \<open>
  The state with nothing allocated, and the state whose heap holds the given objects at
  the addresses \<open>0, 1, \<dots>\<close>
\<close>

definition empty_state :: state where
  "empty_state =
     \<lparr>heap = (\<lambda>a. \<lparr>proto = PlainObject, own_props = []\<rparr>), next_addr = 0, deprecations = 0\<rparr>"

definition state_of :: "obj list \<Rightarrow> state" where
  "state_of obs =
     \<lparr>heap = (\<lambda>a. if a < length obs then obs ! a else \<lparr>proto = PlainObject, own_props = []\<rparr>),
      next_addr = length obs, deprecations = 0\<rparr>"


definition forbidden_error :: obj where
  "forbidden_error =
     \<lparr>proto = ErrorLike,
      own_props = [(''message'', Str ''no entry''), (''status'', Num (Fin 403))]\<rparr>"

definition teapot_error :: obj where
  "teapot_error = \<lparr>proto = ErrorLike, own_props = [(''status'', Str ''teapot'')]\<rparr>"

definition far_error :: obj where
  "far_error = \<lparr>proto = ErrorLike, own_props = [(''statusCode'', Num (Fin 700))]\<rparr>"


text \<open>
  An instance of the concrete type for 404 whose \<^verbatim>\<open>statusCode\<close> has been assigned 500
  after its construction.
\<close>

definition skewed_not_found :: obj where
  "skewed_not_found =
     \<lparr>proto = Concrete NotFoundError,
      own_props = [(''message'', Str ''Not Found''), (''statusCode'', Num (Fin 500)),
                   (''status'', Num (Fin 404)), (''name'', Str ''NotFoundError''),
                   (''expose'', Bool True)]\<rparr>"

text \<open>
  The property bags \<^verbatim>\<open>{ status: 404, code: 'X' }\<close>, \<^verbatim>\<open>{ expose: 'yes' }\<close>,
  \<^verbatim>\<open>{ expose: true }\<close>, \<^verbatim>\<open>{ a: 1 }\<close> and \<^verbatim>\<open>{ b: 2 }\<close>, and the plain object
  \<^verbatim>\<open>{ expose: true, status: 404, statusCode: 404 }\<close>.
\<close>

definition code_bag :: obj where
  "code_bag =
     \<lparr>proto = PlainObject, own_props = [(''status'', Num (Fin 404)), (''code'', Str ''X'')]\<rparr>"






section \<open>Basic facts about the heap\<close>

lemma get_set_prop:
  "get (set_prop a k v s) b j = (if b = a \<and> j = k then v else get s b j)"
  by (auto simp: get_def set_prop_def get_prop_def instanceof_Error_def update_conv')

lemma heap_set_prop_other: "b \<noteq> a \<Longrightarrow> heap (set_prop a k v s) b = heap s b"
  by (simp add: set_prop_def)

lemma proto_set_prop: "proto (heap (set_prop a k v s) b) = proto (heap s b)"
  by (simp add: set_prop_def)

lemma next_addr_set_prop: "next_addr (set_prop a k v s) = next_addr s"
  by (simp add: set_prop_def)

lemma deprecations_set_prop: "deprecations (set_prop a k v s) = deprecations s"
  by (simp add: set_prop_def)

lemma own_set_prop:
  "map_of (own_props (heap (set_prop a k v s) b)) j =
     (if b = a \<and> j = k then Some v else map_of (own_props (heap s b)) j)"
  by (simp add: set_prop_def update_conv')

section \<open>Unsupported arguments\<close>

lemma scan_arg_throws: "fits_no_role i arg \<Longrightarrow> scan_arg h i arg v = Inl (unsupported i arg)"
  by (cases arg) (auto simp: fits_no_role_def scan_arg_def)

lemma scan_arg_returns: "\<not> fits_no_role i arg \<Longrightarrow> \<exists>v'. scan_arg h i arg v = Inr v'"
  by (cases arg) (auto simp: fits_no_role_def scan_arg_def)

lemma scan_args_throws:
  "n < length args \<Longrightarrow> fits_no_role (i + n) (args ! n) \<Longrightarrow>
   \<forall>j<n. \<not> fits_no_role (i + j) (args ! j) \<Longrightarrow>
   scan_args h i args v = Inl (unsupported (i + n) (args ! n))"
proof (induction args arbitrary: i n v)
  case Nil
  then show ?case by simp
next
  case (Cons arg rest)
  show ?case
  proof (cases n)
    case 0
    with Cons.prems show ?thesis by (simp add: scan_arg_throws)
  next
    case (Suc m)
    from Cons.prems(3) Suc have "\<not> fits_no_role i arg" by force
    then obtain v' where v': "scan_arg h i arg v = Inr v'"
      using scan_arg_returns by blast
    have "scan_args h (Suc i) rest v' = Inl (unsupported (Suc i + m) (rest ! m))"
    proof (rule Cons.IH)
      show "m < length rest" using Cons.prems(1) Suc by simp
      show "fits_no_role (Suc i + m) (rest ! m)" using Cons.prems(2) Suc by simp
      show "\<forall>j<m. \<not> fits_no_role (Suc i + j) (rest ! j)"
      proof (intro allI impI)
        fix j assume "j < m"
        then have "Suc j < n" using Suc by simp
        with Cons.prems(3) have "\<not> fits_no_role (i + Suc j) ((arg # rest) ! Suc j)" by blast
        then show "\<not> fits_no_role (Suc i + j) (rest ! j)" by simp
      qed
    qed
    with v' Suc show ?thesis by simp
  qed
qed

lemma scan_args_returns:
  "\<forall>j<length args. \<not> fits_no_role (i + j) (args ! j) \<Longrightarrow> \<exists>v'. scan_args h i args v = Inr v'"
proof (induction args arbitrary: i v)
  case Nil
  then show ?case by simp
next
  case (Cons arg rest)
  from Cons.prems have "\<not> fits_no_role i arg" by force
  then obtain v' where v': "scan_arg h i arg v = Inr v'"
    using scan_arg_returns by blast
  have "\<forall>j<length rest. \<not> fits_no_role (Suc i + j) (rest ! j)"
  proof (intro allI impI)
    fix j assume "j < length rest"
    then have "Suc j < length (arg # rest)" by simp
    with Cons.prems have "\<not> fits_no_role (i + Suc j) ((arg # rest) ! Suc j)" by blast
    then show "\<not> fits_no_role (Suc i + j) (rest ! j)" by simp
  qed
  from Cons.IH[OF this] v' show ?case by simp
qed

text \<open>
  C7. When the first argument that fits none of the four roles stands at position \<open>n\<close>
  (counted from zero), the factory throws the type error that names position \<open>n + 1\<close> and
  the type of that argument; a number anywhere but in first position is such an argument.
  Constructing \<^verbatim>\<open>HttpError\<close> itself throws a type error as well.
\<close>

theorem unsupported_argument_throws:
  assumes "n < length args" and "fits_no_role n (args ! n)"
    and "\<forall>j<n. \<not> fits_no_role j (args ! j)"
  shows "createError ex reg args s =
           Inl (TypeError (''argument #'' @ number_to_string (Fin (int (n + 1))) @
                           '' unsupported type '' @ typeof (args ! n)))
         \<and> HttpError_constructor NT_HttpError status message s =
           Inl (TypeError ''cannot construct abstract class'')"
proof -
  have "scan_args (heap s) 0 args initial_vars = Inl (unsupported (0 + n) (args ! n))"
    using assms by (intro scan_args_throws) simp_all
  then show ?thesis
    by (simp add: createError_def unsupported_def HttpError_constructor_def)
qed

theorem unsupported_argument_throws_witness:
  "createError sample_exports sample_statuses [Str ''gone'', Num (Fin 404)] empty_state =
     Inl (TypeError ''argument #2 unsupported type number'')
   \<and> createError sample_exports sample_statuses [Num (Fin 404), Str ''gone'', Bool True]
         empty_state =
     Inl (TypeError ''argument #3 unsupported type boolean'')
   \<and> HttpError_constructor NT_HttpError (Num (Fin 404)) (Str ''gone'') empty_state =
     Inl (TypeError ''cannot construct abstract class'')"
proof -
  let ?xs = "[Str ''gone'', Num (Fin 404)]"
  let ?ys = "[Num (Fin 404), Str ''gone'', Bool True]"
  have x1: "(1::nat) < length ?xs" and x2: "fits_no_role 1 (?xs ! 1)"
    and x3: "\<forall>j<1. \<not> fits_no_role j (?xs ! j)"
    by (simp_all add: fits_no_role_def)
  have y1: "(2::nat) < length ?ys" and y2: "fits_no_role 2 (?ys ! 2)"
    by (simp_all add: fits_no_role_def)
  have y3: "\<forall>j<2. \<not> fits_no_role j (?ys ! j)"
    by (auto simp: fits_no_role_def less_Suc_eq numeral_2_eq_2)
  show ?thesis
    using unsupported_argument_throws [OF x1 x2 x3, of sample_exports sample_statuses
        empty_state "Num (Fin 404)" "Str ''gone''"]
      unsupported_argument_throws [OF y1 y2 y3, of sample_exports sample_statuses
        empty_state "Num (Fin 404)" "Str ''gone''"]
    by (simp add: nat_to_string.simps digit_char_def)
qed

section \<open>What the scan leaves in the variables\<close>

lemma scan_arg_err:
  "scan_arg h i arg v = Inr v' \<Longrightarrow>
   v_err v' = (case arg of Ref a \<Rightarrow> if instanceof_Error (h a) then Some a else v_err v | _ \<Rightarrow> v_err v)"
  by (cases arg) (auto simp: scan_arg_def split: if_splits)

lemma scan_args_err:
  "scan_args h i args v = Inr v' \<Longrightarrow>
   (case v_err v' of None \<Rightarrow> Undefined | Some a \<Rightarrow> Ref a) =
     (if error_objects h args = [] then (case v_err v of None \<Rightarrow> Undefined | Some a \<Rightarrow> Ref a)
      else last (error_objects h args))"
proof (induction args arbitrary: i v)
  case Nil
  then show ?case by (simp add: error_objects_def)
next
  case (Cons arg rest)
  from Cons.prems obtain w where w: "scan_arg h i arg v = Inr w"
    and r: "scan_args h (Suc i) rest w = Inr v'"
    by (auto split: sum.splits)
  from Cons.IH[OF r] scan_arg_err[OF w] show ?case
    by (cases arg) (auto simp: error_objects_def is_error_object_def)
qed

lemma scan_args_err_Some:
  assumes "scan_args h 0 args initial_vars = Inr v" and "error_objects h args \<noteq> []"
  shows "\<exists>e. v_err v = Some e \<and> last (error_objects h args) = Ref e \<and> instanceof_Error (h e)"
proof -
  have "last (error_objects h args) \<in> set (error_objects h args)"
    using assms(2) by simp
  then have "is_error_object h (last (error_objects h args))"
    by (simp add: error_objects_def)
  then obtain e where e: "last (error_objects h args) = Ref e" "instanceof_Error (h e)"
    by (auto simp: is_error_object_def split: jsval.splits)
  from scan_args_err[OF assms(1)] assms(2) e show ?thesis
    by (auto split: option.splits)
qed

lemma scan_args_err_None:
  assumes "scan_args h 0 args initial_vars = Inr v" and "error_objects h args = []"
  shows "v_err v = None"
  using scan_args_err[OF assms(1)] assms(2)
  by (auto simp: initial_vars_def split: option.splits)




section \<open>Frames\<close>

lemma advise_frame [simp]:
  "heap (advise st s) = heap s" "next_addr (advise st s) = next_addr s"
  by (auto simp: advise_def split: jsval.splits)

lemma get_advise [simp]: "get (advise st s) a k = get s a k"
  by (simp add: get_def)


lemma get_decorate:
  "get (decorate e st s) b k =
     (if b = e \<and> k = ''status'' then Num st
      else if b = e \<and> k = ''statusCode'' then Num st
      else if b = e \<and> k = ''expose'' then Bool (num_less st (Fin 500))
      else get s b k)"
  by (simp add: decorate_def Let_def get_set_prop)


lemma copy_key_frame:
  "next_addr (copy_key e b k s) = next_addr s"
  "c \<noteq> e \<Longrightarrow> heap (copy_key e b k s) c = heap s c"
  "proto (heap (copy_key e b k s) c) = proto (heap s c)"
  by (simp_all add: copy_key_def next_addr_set_prop heap_set_prop_other proto_set_prop)

lemma fold_copy_key_frame:
  "next_addr (fold (copy_key e b) ks s) = next_addr s"
  "c \<noteq> e \<Longrightarrow> heap (fold (copy_key e b) ks s) c = heap s c"
  "proto (heap (fold (copy_key e b) ks s) c) = proto (heap s c)"
  by (induction ks arbitrary: s) (simp_all add: copy_key_frame)

lemma merge_props_frame:
  "next_addr (merge_props e p s) = next_addr s"
  "c \<noteq> e \<Longrightarrow> heap (merge_props e p s) c = heap s c"
  "proto (heap (merge_props e p s) c) = proto (heap s c)"
  by (simp_all add: merge_props_def fold_copy_key_frame split: option.splits)

text \<open>The loop never writes the two reserved keys.\<close>

lemma own_copy_key_reserved:
  "k \<in> reserved \<Longrightarrow>
   map_of (own_props (heap (copy_key e b j s) c)) k = map_of (own_props (heap s c)) k"
  by (auto simp: copy_key_def own_set_prop reserved_def)

lemma own_fold_copy_key_reserved:
  "k \<in> reserved \<Longrightarrow>
   map_of (own_props (heap (fold (copy_key e b) ks s) c)) k = map_of (own_props (heap s c)) k"
  by (induction ks arbitrary: s) (simp_all add: own_copy_key_reserved)


lemma own_merge_props_reserved:
  "k \<in> reserved \<Longrightarrow>
   map_of (own_props (heap (merge_props e p s) c)) k = map_of (own_props (heap s c)) k"
  by (simp add: merge_props_def own_fold_copy_key_reserved split: option.splits)


lemma get_prop_cong:
  "proto ob = proto ob' \<Longrightarrow> map_of (own_props ob) k = map_of (own_props ob') k \<Longrightarrow>
   get_prop ob k = get_prop ob' k"
  by (simp add: get_prop_def instanceof_Error_def)

lemma get_merge_props_reserved:
  "k \<in> reserved \<Longrightarrow> get (merge_props e p s) c k = get s c k"
  unfolding get_def
  by (rule get_prop_cong) (simp_all add: merge_props_frame own_merge_props_reserved)


section \<open>The factory, case by case\<close>

lemma CodeError_constructor_returns:
  "\<exists>s'. CodeError_constructor reg C m s = Inr (next_addr s, s')"
  by (simp add: CodeError_constructor_def HttpError_constructor_def Error_new_def Let_def)

lemma construct_error_returns:
  "\<exists>s'. construct_error reg H m st s = Inr (next_addr s, s')"
  using CodeError_constructor_returns
  by (cases H) (auto simp: construct_error_def Error_new_def Let_def)

lemma createError_returns:
  assumes "\<forall>j<length args. \<not> fits_no_role j (args ! j)"
  shows "\<exists>e s'. createError ex reg args s = Inr (Ref e, s')"
proof -
  from assms have "\<forall>j<length args. \<not> fits_no_role (0 + j) (args ! j)" by simp
  from scan_args_returns[OF this] obtain v
    where v: "scan_args (heap s) 0 args initial_vars = Inr v" by blast
  show ?thesis
  proof (cases "v_err v")
    case None
    obtain s2 where "construct_error reg (resolve_constructor ex (resolve_status reg (v_status v)))
        (v_msg v) (resolve_status reg (v_status v)) (advise (v_status v) s) =
        Inr (next_addr (advise (v_status v) s), s2)"
      using construct_error_returns by blast
    with v None show ?thesis by (simp add: createError_def Let_def)
  next
    case (Some e)
    with v show ?thesis by (simp add: createError_def Let_def)
  qed
qed

lemma createError_existing:
  assumes "scan_args (heap s) 0 args initial_vars = Inr v" and "v_err v = Some e"
  shows "createError ex reg args s =
           Inr (Ref e, merge_props e (v_props v)
             (if must_decorate (resolve_constructor ex (resolve_status reg (v_status v))) e
                   (resolve_status reg (v_status v)) (advise (v_status v) s)
              then decorate e (resolve_status reg (v_status v)) (advise (v_status v) s)
              else advise (v_status v) s))"
  using assms by (simp add: createError_def Let_def)

lemma first_misfit:
  assumes "j < length args" and "fits_no_role j (args ! j)"
  shows "\<exists>n\<le>j. n < length args \<and> fits_no_role n (args ! n) \<and>
           (\<forall>k<n. \<not> fits_no_role k (args ! k))"
proof -
  define P where "P n = fits_no_role n (args ! n)" for n
  have "P j" using assms(2) by (simp add: P_def)
  then have "\<exists>n. P n \<and> (\<forall>m<n. \<not> P m)"
    using exists_least_iff[of P] by blast
  then obtain n where n: "P n" "\<forall>m<n. \<not> P m" by blast
  have "n \<le> j"
  proof (rule ccontr)
    assume "\<not> n \<le> j"
    then have "j < n" by simp
    with n(2) \<open>P j\<close> show False by blast
  qed
  with n assms(1) show ?thesis unfolding P_def by (intro exI[of _ n]) simp
qed

lemma createError_throws:
  assumes "n < length args" and "fits_no_role n (args ! n)"
    and "\<forall>k<n. \<not> fits_no_role k (args ! k)"
  shows "createError ex reg args s = Inl (unsupported n (args ! n))"
proof -
  have "scan_args (heap s) 0 args initial_vars = Inl (unsupported (0 + n) (args ! n))"
    using assms by (intro scan_args_throws) simp_all
  then show ?thesis by (simp add: createError_def)
qed

text \<open>
  C3 (as amended). A number is accepted in first position only. When a numeric argument
  follows an error object, the call throws a type error, and the error names the position
  of that number when every argument before it is supported; the working status that the
  error object set is never overwritten by a later number.
\<close>

theorem number_after_error_throws:
  assumes "i < j" and "j < length args" and "is_error_object (heap s) (args ! i)"
    and "args ! j = Num n"
  shows "(\<exists>m. createError ex reg args s = Inl (TypeError m)) \<and>
         ((\<forall>k<j. \<not> fits_no_role k (args ! k)) \<longrightarrow>
            createError ex reg args s =
              Inl (TypeError (''argument #'' @ number_to_string (Fin (int (j + 1))) @
                              '' unsupported type number'')))"
proof -
  have misfit: "fits_no_role j (args ! j)"
    using assms(1,4) by (simp add: fits_no_role_def)
  from first_misfit[OF assms(2) misfit] obtain k where k: "k < length args"
    "fits_no_role k (args ! k)" "\<forall>l<k. \<not> fits_no_role l (args ! l)"
    by blast
  from createError_throws[OF k] have "\<exists>m. createError ex reg args s = Inl (TypeError m)"
    by (simp add: unsupported_def)
  moreover have "createError ex reg args s =
      Inl (TypeError (''argument #'' @ number_to_string (Fin (int (j + 1))) @
                      '' unsupported type number''))"
    if "\<forall>k<j. \<not> fits_no_role k (args ! k)"
    using createError_throws[OF assms(2) misfit that] assms(4) by (simp add: unsupported_def)
  ultimately show ?thesis by blast
qed

theorem number_after_error_throws_witness:
  "createError sample_exports sample_statuses [Ref 0, Num (Fin 404)] (state_of [forbidden_error]) =
     Inl (TypeError ''argument #2 unsupported type number'')"
proof -
  let ?args = "[Ref 0, Num (Fin 404)]"
  let ?s = "state_of [forbidden_error]"
  have a: "(0::nat) < 1" and b: "(1::nat) < length ?args"
    and c: "is_error_object (heap ?s) (?args ! 0)" and d: "?args ! 1 = Num (Fin 404)"
    and e: "\<forall>k<1. \<not> fits_no_role k (?args ! k)"
    by (simp_all add: is_error_object_def state_of_def forbidden_error_def instanceof_Error_def
        fits_no_role_def)
  show ?thesis
    using number_after_error_throws [OF a b c d, of sample_exports sample_statuses] e
    by (simp add: nat_to_string.simps digit_char_def)
qed

theorem later_number_overwrites_counterexample:
  "is_error_object (heap (state_of [forbidden_error])) (Ref 0)
   \<and> get (state_of [forbidden_error]) 0 ''status'' = Num (Fin 403)
   \<and> returned (createError sample_exports sample_statuses [Ref 0, Num (Fin 404)]
       (state_of [forbidden_error])) = None
   \<and> result_get (createError sample_exports sample_statuses [Ref 0, Num (Fin 404)]
       (state_of [forbidden_error])) ''status'' \<noteq> Some (Num (Fin 404))"
  by code_simp



section \<open>The status of the result\<close>

lemma createError_fresh:
  assumes "scan_args (heap s) 0 args initial_vars = Inr v" and "v_err v = None"
    and "construct_error reg (resolve_constructor ex (resolve_status reg (v_status v)))
           (v_msg v) (resolve_status reg (v_status v)) (advise (v_status v) s) = Inr (e, s2)"
  shows "createError ex reg args s =
           Inr (Ref e, merge_props e (v_props v)
             (if must_decorate (resolve_constructor ex (resolve_status reg (v_status v))) e
                   (resolve_status reg (v_status v)) s2
              then decorate e (resolve_status reg (v_status v)) s2
              else s2))"
  using assms by (simp add: createError_def Let_def)

text \<open>Whether or not the object is decorated, its \<^verbatim>\<open>status\<close> is the resolved one.\<close>

lemma status_after_decoration:
  "get (if must_decorate H e st s then decorate e st s else s) e ''status'' = Num st"
  by (auto simp: get_decorate must_decorate_def strict_eq_def split: option.splits)

lemma get_merge_props_status:
  "get (merge_props e p s) c ''status'' = get s c ''status''"
  "get (merge_props e p s) c ''statusCode'' = get s c ''statusCode''"
  by (simp_all add: get_merge_props_reserved reserved_def)

lemma createError_shape:
  assumes "createError ex reg args s = Inr (Ref e, s')"
    and "scan_args (heap s) 0 args initial_vars = Inr v"
  shows "\<exists>s2. s' = merge_props e (v_props v)
           (if must_decorate (resolve_constructor ex (resolve_status reg (v_status v))) e
                 (resolve_status reg (v_status v)) s2
            then decorate e (resolve_status reg (v_status v)) s2 else s2) \<and>
         (case v_err v of
            Some a \<Rightarrow> e = a \<and> s2 = advise (v_status v) s
          | None \<Rightarrow> construct_error reg (resolve_constructor ex (resolve_status reg (v_status v)))
                      (v_msg v) (resolve_status reg (v_status v)) (advise (v_status v) s)
                    = Inr (e, s2))"
proof (cases "v_err v")
  case None
  obtain s2 where c: "construct_error reg (resolve_constructor ex (resolve_status reg (v_status v)))
      (v_msg v) (resolve_status reg (v_status v)) (advise (v_status v) s) =
      Inr (next_addr (advise (v_status v) s), s2)"
    using construct_error_returns by blast
  from createError_fresh[OF assms(2) None c] assms(1)
  have "e = next_addr (advise (v_status v) s)" by simp
  with createError_fresh[OF assms(2) None c] assms(1) c None show ?thesis
    by (intro exI[of _ s2]) auto
next
  case (Some a)
  from createError_existing[OF assms(2) Some] assms(1) have "e = a" by simp
  with createError_existing[OF assms(2) Some] assms(1) Some show ?thesis
    by (intro exI[of _ "advise (v_status v) s"]) auto
qed

lemma createError_status:
  assumes "createError ex reg args s = Inr (Ref e, s')"
    and "scan_args (heap s) 0 args initial_vars = Inr v"
  shows "get s' e ''status'' = Num (resolve_status reg (v_status v))"
proof -
  from createError_shape[OF assms] obtain s2 where
    "s' = merge_props e (v_props v)
           (if must_decorate (resolve_constructor ex (resolve_status reg (v_status v))) e
                 (resolve_status reg (v_status v)) s2
            then decorate e (resolve_status reg (v_status v)) s2 else s2)"
    by blast
  then show ?thesis
    by (simp only: get_merge_props_status status_after_decoration)
qed

text \<open>
  C2 (as amended). When the status that reaches the resolution is not a number, or is a
  number below 400 or at least 600 for which the registry has no reason phrase, the
  factory returns, and the \<^verbatim>\<open>status\<close> of what it returns is 500.
\<close>

theorem unknown_status_falls_back:
  assumes "scan_args (heap s) 0 args initial_vars = Inr v"
    and "typeof (v_status v) \<noteq> ''number'' \<or>
         (\<exists>n. v_status v = Num n \<and> out_of_range n \<and> \<not> truthy (statuses_message reg n))"
  shows "\<exists>e s'. createError ex reg args s = Inr (Ref e, s') \<and>
           get s' e ''status'' = Num (Fin 500)"
proof -
  have "\<forall>j<length args. \<not> fits_no_role j (args ! j)"
  proof (rule ccontr)
    assume "\<not> ?thesis"
    then obtain j where j: "j < length args" "fits_no_role j (args ! j)" by blast
    from first_misfit[OF j] obtain n where "n < length args" "fits_no_role n (args ! n)"
      "\<forall>k<n. \<not> fits_no_role k (args ! k)" by blast
    then have "scan_args (heap s) 0 args initial_vars = Inl (unsupported (0 + n) (args ! n))"
      by (intro scan_args_throws) simp_all
    with assms(1) show False by simp
  qed
  from createError_returns[OF this] obtain e s'
    where r: "createError ex reg args s = Inr (Ref e, s')" by blast
  have "resolve_status reg (v_status v) = Fin 500"
    using assms(2) by (cases "v_status v") (auto simp: resolve_status_def)
  with createError_status[OF r assms(1)] r show ?thesis by simp
qed

theorem unknown_status_falls_back_witness:
  "result_get (createError sample_exports sample_statuses [Num (Fin 399)] empty_state) ''status''
     = Some (Num (Fin 500))
   \<and> result_get (createError sample_exports sample_statuses [Ref 0] (state_of [far_error]))
       ''status'' = Some (Num (Fin 500))
   \<and> result_get (createError sample_exports sample_statuses [Ref 0] (state_of [teapot_error]))
       ''status'' = Some (Num (Fin 500))"
proof -
  let ?v1 = "initial_vars\<lparr>v_status := Num (Fin 399)\<rparr>"
  let ?v2 = "initial_vars\<lparr>v_err := Some 0, v_status := Num (Fin 700)\<rparr>"
  let ?v3 = "initial_vars\<lparr>v_err := Some 0, v_status := Str ''teapot''\<rparr>"
  have a1: "scan_args (heap empty_state) 0 [Num (Fin 399)] initial_vars = Inr ?v1"
    by (simp add: scan_arg_def)
  have a2: "typeof (v_status ?v1) \<noteq> ''number'' \<or>
      (\<exists>n. v_status ?v1 = Num n \<and> out_of_range n \<and>
           \<not> truthy (statuses_message sample_statuses n))"
    by (simp add: out_of_range_def sample_statuses_def)
  have b1: "scan_args (heap (state_of [far_error])) 0 [Ref 0] initial_vars = Inr ?v2"
    by (simp add: scan_arg_def state_of_def far_error_def instanceof_Error_def
        get_prop_def js_or_def)
  have b2: "typeof (v_status ?v2) \<noteq> ''number'' \<or>
      (\<exists>n. v_status ?v2 = Num n \<and> out_of_range n \<and>
           \<not> truthy (statuses_message sample_statuses n))"
    by (simp add: out_of_range_def sample_statuses_def)
  have c1: "scan_args (heap (state_of [teapot_error])) 0 [Ref 0] initial_vars = Inr ?v3"
    by (simp add: scan_arg_def state_of_def teapot_error_def instanceof_Error_def
        get_prop_def js_or_def)
  have c2: "typeof (v_status ?v3) \<noteq> ''number'' \<or>
      (\<exists>n. v_status ?v3 = Num n \<and> out_of_range n \<and>
           \<not> truthy (statuses_message sample_statuses n))"
    by simp
  show ?thesis
    using unknown_status_falls_back [OF a1 a2, of sample_exports]
      unknown_status_falls_back [OF b1 b2, of sample_exports]
      unknown_status_falls_back [OF c1 c2, of sample_exports]
    by (auto simp: result_get_def)
qed

theorem out_of_range_status_counterexample:
  "result_get (createError sample_exports sample_statuses [Num (Fin 200)] empty_state) ''status''
     = Some (Num (Fin 200))"
  by code_simp

section \<open>What the constructors build\<close>

lemma Error_new_post:
  assumes "Error_new p m s = (e, s')"
  shows "e = next_addr s" "next_addr s' = Suc (next_addr s)"
    "heap s' e = \<lparr>proto = p, own_props = (if m = Undefined then [] else [(''message'', m)])\<rparr>"
    "\<And>b. b \<noteq> e \<Longrightarrow> heap s' b = heap s b"
  using assms by (auto simp: Error_new_def Let_def)

lemma HttpError_constructor_post:
  assumes "HttpError_constructor nt st m s = Inr (e, s')"
  shows "e = next_addr s" "next_addr s' = Suc (next_addr s)"
    "proto (heap s' e) = proto_of_target nt"
    "\<And>b. b \<noteq> e \<Longrightarrow> heap s' b = heap s b"
    "get s' e ''status'' = st" "get s' e ''statusCode'' = st"
    "map_of (own_props (heap s' e)) ''message'' = (if m = Undefined then None else Some m)"
    "map_of (own_props (heap s' e)) ''expose'' = None"
  using assms
  by (auto simp: HttpError_constructor_def Error_new_def Let_def set_prop_def get_def
      get_prop_def update_conv' split: if_splits)

lemma CodeError_constructor_post:
  assumes "CodeError_constructor reg C m s = Inr (e, s')"
  shows "e = next_addr s" "next_addr s' = Suc (next_addr s)"
    "proto (heap s' e) = Concrete C"
    "\<And>b. b \<noteq> e \<Longrightarrow> heap s' b = heap s b"
    "get s' e ''status'' = Num (Fin (code C))"
    "get s' e ''statusCode'' = Num (Fin (code C))"
    "get s' e ''expose'' = Bool (\<not> server C)"
    "get s' e ''name'' = Str (className C)"
    "map_of (own_props (heap s' e)) ''message'' =
       (case m of Some t \<Rightarrow> Some (Str t)
        | None \<Rightarrow> (if statuses_message reg (Fin (code C)) = Undefined then None
                    else Some (statuses_message reg (Fin (code C)))))"
proof -
  from assms obtain s1 where h: "HttpError_constructor (NT_Concrete C) (Num (Fin (code C)))
      (case m of Some t \<Rightarrow> Str t | None \<Rightarrow> statuses_message reg (Fin (code C))) s = Inr (e, s1)"
    and s': "s' = set_prop e ''expose'' (Bool (\<not> server C))
                    (set_prop e ''name'' (Str (className C)) s1)"
    by (auto simp: CodeError_constructor_def Let_def split: sum.splits)
  note p = HttpError_constructor_post[OF h]
  show "e = next_addr s" by (rule p(1))
  show "next_addr s' = Suc (next_addr s)" by (simp add: s' next_addr_set_prop p(2))
  show "proto (heap s' e) = Concrete C" by (simp add: s' proto_set_prop p(3))
  show "\<And>b. b \<noteq> e \<Longrightarrow> heap s' b = heap s b" by (simp add: s' heap_set_prop_other p(4))
  show "get s' e ''status'' = Num (Fin (code C))" by (simp add: s' get_set_prop p(5))
  show "get s' e ''statusCode'' = Num (Fin (code C))" by (simp add: s' get_set_prop p(6))
  show "get s' e ''expose'' = Bool (\<not> server C)" by (simp add: s' get_set_prop)
  show "get s' e ''name'' = Str (className C)" by (simp add: s' get_set_prop)
  show "map_of (own_props (heap s' e)) ''message'' =
       (case m of Some t \<Rightarrow> Some (Str t)
        | None \<Rightarrow> (if statuses_message reg (Fin (code C)) = Undefined then None
                    else Some (statuses_message reg (Fin (code C)))))"
    by (simp add: s' own_set_prop p(7) split: option.splits)
qed

lemma construct_error_post:
  assumes "construct_error reg H m st s = Inr (e, s')"
  shows "e = next_addr s" "next_addr s' = Suc (next_addr s)"
    "proto (heap s' e) = (case H of Some C \<Rightarrow> Concrete C | None \<Rightarrow> ErrorLike)"
    "\<And>b. b \<noteq> e \<Longrightarrow> heap s' b = heap s b"
    "H \<noteq> None \<Longrightarrow> get s' e ''statusCode'' = get s' e ''status''"
proof -
  show "e = next_addr s" using assms CodeError_constructor_post(1)
    by (cases H) (auto simp: construct_error_def Error_new_def Let_def)
  show "next_addr s' = Suc (next_addr s)" using assms CodeError_constructor_post(2)
    by (cases H) (auto simp: construct_error_def Error_new_def Let_def)
  show "proto (heap s' e) = (case H of Some C \<Rightarrow> Concrete C | None \<Rightarrow> ErrorLike)"
    using assms CodeError_constructor_post(3)
    by (cases H) (auto simp: construct_error_def Error_new_def Let_def)
  show "\<And>b. b \<noteq> e \<Longrightarrow> heap s' b = heap s b" using assms CodeError_constructor_post(4)
    by (cases H) (auto simp: construct_error_def Error_new_def Let_def)
  show "H \<noteq> None \<Longrightarrow> get s' e ''statusCode'' = get s' e ''status''"
    using assms CodeError_constructor_post(5,6)
    by (cases H) (auto simp: construct_error_def)
qed

section \<open>The status is never NaN unless the caller passes NaN\<close>

lemma truthy_not_NaN: "truthy x \<Longrightarrow> x \<noteq> Num NaN"
  by auto

lemma scan_arg_status_not_NaN:
  "scan_arg h i arg v = Inr v' \<Longrightarrow> arg \<noteq> Num NaN \<Longrightarrow> v_status v \<noteq> Num NaN \<Longrightarrow>
   v_status v' \<noteq> Num NaN"
  by (cases arg) (auto simp: scan_arg_def js_or_def split: if_splits)

lemma scan_args_status_not_NaN:
  "scan_args h i args v = Inr v' \<Longrightarrow> Num NaN \<notin> set args \<Longrightarrow> v_status v \<noteq> Num NaN \<Longrightarrow>
   v_status v' \<noteq> Num NaN"
proof (induction args arbitrary: i v)
  case Nil
  then show ?case by simp
next
  case (Cons arg rest)
  from Cons.prems(1) obtain w where w: "scan_arg h i arg v = Inr w"
    and r: "scan_args h (Suc i) rest w = Inr v'"
    by (auto split: sum.splits)
  from scan_arg_status_not_NaN[OF w] Cons.prems have "v_status w \<noteq> Num NaN" by auto
  with Cons.IH[OF r] Cons.prems(2) show ?case by simp
qed

lemma resolve_status_not_NaN: "x \<noteq> Num NaN \<Longrightarrow> resolve_status reg x \<noteq> NaN"
  by (cases x) (auto simp: resolve_status_def)

lemma createError_status_not_NaN:
  assumes "scan_args (heap s) 0 args initial_vars = Inr v" and "Num NaN \<notin> set args"
  shows "resolve_status reg (v_status v) \<noteq> NaN"
  using scan_args_status_not_NaN[OF assms] by (simp add: initial_vars_def resolve_status_not_NaN)

lemma createError_scanned:
  assumes "createError ex reg args s = Inr r"
  shows "\<exists>v. scan_args (heap s) 0 args initial_vars = Inr v"
  using assms by (auto simp: createError_def split: sum.splits)


text \<open>
  C9 (as amended). An instance built by the base constructor through a subclass, by the
  constructor of a concrete type, or by the factory satisfies \<^verbatim>\<open>status === statusCode\<close>
  when it is returned, as long as the status is not \<^verbatim>\<open>NaN\<close>. When the factory is given an
  existing error it either writes both properties or leaves both as they were, so the
  equality can only fail at return for an argument on which it failed already; merging
  the property bag never touches either property.
\<close>

theorem status_equals_statusCode:
  "(HttpError_constructor nt st m s = Inr (e, s') \<longrightarrow> st \<noteq> Num NaN \<longrightarrow>
      strict_eq (get s' e ''status'') (get s' e ''statusCode'')) \<and>
   (CodeError_constructor reg C msg s = Inr (e, s') \<longrightarrow>
      strict_eq (get s' e ''status'') (get s' e ''statusCode'')) \<and>
   (createError ex reg args s = Inr (Ref e, s') \<longrightarrow> Num NaN \<notin> set args \<longrightarrow>
      strict_eq (get s' e ''status'') (get s' e ''statusCode'') \<or>
      (Ref e \<in> set args \<and> get s' e ''status'' = get s e ''status'' \<and>
       get s' e ''statusCode'' = get s e ''statusCode''))"
proof (intro conjI impI)
  assume "HttpError_constructor nt st m s = Inr (e, s')" and "st \<noteq> Num NaN"
  then show "strict_eq (get s' e ''status'') (get s' e ''statusCode'')"
    by (simp add: HttpError_constructor_post(5,6) strict_eq_def)
next
  assume "CodeError_constructor reg C msg s = Inr (e, s')"
  then show "strict_eq (get s' e ''status'') (get s' e ''statusCode'')"
    by (simp add: CodeError_constructor_post(5,6) strict_eq_def)
next
  assume r: "createError ex reg args s = Inr (Ref e, s')" and nan: "Num NaN \<notin> set args"
  from createError_scanned[OF r] obtain v
    where v: "scan_args (heap s) 0 args initial_vars = Inr v" by blast
  let ?st = "resolve_status reg (v_status v)"
  let ?H = "resolve_constructor ex ?st"
  have st: "?st \<noteq> NaN" by (rule createError_status_not_NaN[OF v nan])
  from createError_shape[OF r v] obtain s2 where
    s': "s' = merge_props e (v_props v) (if must_decorate ?H e ?st s2 then decorate e ?st s2 else s2)"
    and c: "case v_err v of Some a \<Rightarrow> e = a \<and> s2 = advise (v_status v) s
            | None \<Rightarrow> construct_error reg ?H (v_msg v) ?st (advise (v_status v) s) = Inr (e, s2)"
    by blast
  show "strict_eq (get s' e ''status'') (get s' e ''statusCode'') \<or>
      (Ref e \<in> set args \<and> get s' e ''status'' = get s e ''status'' \<and>
       get s' e ''statusCode'' = get s e ''statusCode'')"
  proof (cases "must_decorate ?H e ?st s2")
    case True
    with s' st show ?thesis
      by (simp add: get_merge_props_status get_decorate strict_eq_def)
  next
    case False
    then have H: "?H \<noteq> None" by (auto simp: must_decorate_def split: option.splits)
    from False s' have g: "get s' e ''status'' = get s2 e ''status''"
      "get s' e ''statusCode'' = get s2 e ''statusCode''"
      by (simp_all add: get_merge_props_status)
    from False have eq: "get s2 e ''status'' = Num ?st"
      by (auto simp: must_decorate_def strict_eq_def split: option.splits)
    show ?thesis
    proof (cases "v_err v")
      case None
      with c have "construct_error reg ?H (v_msg v) ?st (advise (v_status v) s) = Inr (e, s2)"
        by simp
      from construct_error_post(5)[OF this H] g eq st show ?thesis
        by (simp add: strict_eq_def)
    next
      case (Some a)
      with c have a: "e = a" "s2 = advise (v_status v) s" by simp_all
      from scan_args_err[OF v] Some have "error_objects (heap s) args \<noteq> []"
        by (auto simp: initial_vars_def split: if_splits)
      with scan_args_err_Some[OF v] Some a have "Ref e \<in> set (error_objects (heap s) args)"
        by (metis last_in_set option.inject)
      then have "Ref e \<in> set args" by (simp add: error_objects_def)
      with g a show ?thesis by simp
    qed
  qed
qed

theorem status_equals_statusCode_witness:
  "strict_eq (the (result_get (createError sample_exports sample_statuses [Ref 0, Ref 1]
       (state_of [forbidden_error, code_bag])) ''status''))
     (the (result_get (createError sample_exports sample_statuses [Ref 0, Ref 1]
       (state_of [forbidden_error, code_bag])) ''statusCode''))
   \<and> strict_eq
     (the (built_get (HttpError_constructor NT_Subclass (Num (Fin 418)) (Str ''teapot'')
       empty_state) ''status''))
     (the (built_get (HttpError_constructor NT_Subclass (Num (Fin 418)) (Str ''teapot'')
       empty_state) ''statusCode''))
   \<and> strict_eq
     (the (built_get (CodeError_constructor sample_statuses NotFoundError None empty_state)
       ''status''))
     (the (built_get (CodeError_constructor sample_statuses NotFoundError None empty_state)
       ''statusCode''))"
proof -
  let ?s = "state_of [forbidden_error, code_bag]"
  have "\<forall>j<length [Ref 0, Ref 1]. \<not> fits_no_role j ([Ref 0, Ref 1] ! j)"
    by (auto simp: fits_no_role_def less_Suc_eq)
  from createError_returns[OF this] obtain e s'
    where r: "createError sample_exports sample_statuses [Ref 0, Ref 1] ?s = Inr (Ref e, s')"
    by blast
  have nan: "Num NaN \<notin> set [Ref 0, Ref 1]" by simp
  have "returned (createError sample_exports sample_statuses [Ref 0, Ref 1] ?s) = Some (Ref 0)"
    by code_simp
  with r have e: "e = 0" by (simp add: returned_def)
  have pre: "get ?s 0 ''statusCode'' = Undefined"
    by (simp add: get_def get_prop_def state_of_def forbidden_error_def)
  have post: "result_get (createError sample_exports sample_statuses [Ref 0, Ref 1] ?s)
      ''statusCode'' = Some (Num (Fin 403))"
    by code_simp
  with r e have "get s' 0 ''statusCode'' \<noteq> get ?s 0 ''statusCode''"
    by (simp add: result_get_def pre)
  with status_equals_statusCode [of NT_Subclass Undefined Undefined ?s e s' sample_statuses
      NotFoundError None sample_exports "[Ref 0, Ref 1]"] r nan e
  have "strict_eq (get s' 0 ''status'') (get s' 0 ''statusCode'')" by simp
  with r e have one: "strict_eq
     (the (result_get (createError sample_exports sample_statuses [Ref 0, Ref 1] ?s) ''status''))
     (the (result_get (createError sample_exports sample_statuses [Ref 0, Ref 1] ?s)
       ''statusCode''))"
    by (simp add: result_get_def)
  obtain a1 s1 where h: "HttpError_constructor NT_Subclass (Num (Fin 418)) (Str ''teapot'')
      empty_state = Inr (a1, s1)"
    by (simp add: HttpError_constructor_def Error_new_def Let_def)
  from status_equals_statusCode [of NT_Subclass "Num (Fin 418)" "Str ''teapot''" empty_state a1
      s1 sample_statuses NotFoundError None sample_exports "[]"] h
  have "strict_eq (get s1 a1 ''status'') (get s1 a1 ''statusCode'')" by simp
  with h have two: "strict_eq
     (the (built_get (HttpError_constructor NT_Subclass (Num (Fin 418)) (Str ''teapot'')
       empty_state) ''status''))
     (the (built_get (HttpError_constructor NT_Subclass (Num (Fin 418)) (Str ''teapot'')
       empty_state) ''statusCode''))"
    by (simp add: built_get_def)
  obtain a2 s2 where c: "CodeError_constructor sample_statuses NotFoundError None empty_state
      = Inr (a2, s2)"
    using CodeError_constructor_returns by blast
  from status_equals_statusCode [of NT_Subclass Undefined Undefined empty_state a2 s2
      sample_statuses NotFoundError None sample_exports "[]"] c
  have "strict_eq (get s2 a2 ''status'') (get s2 a2 ''statusCode'')" by simp
  with c have three: "strict_eq
     (the (built_get (CodeError_constructor sample_statuses NotFoundError None empty_state)
       ''status''))
     (the (built_get (CodeError_constructor sample_statuses NotFoundError None empty_state)
       ''statusCode''))"
    by (simp add: built_get_def)
  from one two three show ?thesis by blast
qed

theorem status_equals_statusCode_counterexample:
  "result_get (createError sample_exports sample_statuses [Ref 0] (state_of [skewed_not_found]))
     ''status'' = Some (Num (Fin 404))
   \<and> result_get (createError sample_exports sample_statuses [Ref 0] (state_of [skewed_not_found]))
     ''statusCode'' = Some (Num (Fin 500))"
  by code_simp

section \<open>What the merge copies\<close>

lemma get_copy_key:
  "get (copy_key e b x s) c k =
     (if c = e \<and> k = x \<and> x \<notin> reserved then get s b x else get s c k)"
  by (auto simp: copy_key_def get_set_prop reserved_def)


lemma get_fold_copy_key_bag: "b \<noteq> e \<Longrightarrow> get (fold (copy_key e b) ks s) b k = get s b k"
  by (induction ks arbitrary: s) (auto simp: get_copy_key)



lemma get_own: "map_of (own_props (heap s b)) k = Some x \<Longrightarrow> get s b k = x"
  by (simp add: get_def get_prop_def)



section \<open>The bag in effect\<close>



section \<open>Recognizing errors\<close>






section \<open>The property bag\<close>











section \<open>Passing a result through the factory again\<close>







section \<open>Decimal strings\<close>

lemma digit_char_table:
  "\<forall>n \<in> set [0..<10].
     digit_val (digit_char n) = n \<and> is_digit (digit_char n) \<and> digit_char n \<noteq> CHR ''-''"
  by code_simp

lemma digit_char_props:
  assumes "n < 10"
  shows "digit_val (digit_char n) = n" and "is_digit (digit_char n)"
    and "digit_char n \<noteq> CHR ''-''"
proof -
  from assms have "n \<in> set [0..<10]" by simp
  with digit_char_table show "digit_val (digit_char n) = n" and "is_digit (digit_char n)"
    and "digit_char n \<noteq> CHR ''-''"
    by blast+
qed

lemma digits_to_nat_snoc: "digits_to_nat (xs @ [c]) = digits_to_nat xs * 10 + digit_val c"
  by (simp add: digits_to_nat_def)

lemma digits_to_nat_nat_to_string: "digits_to_nat (nat_to_string n) = n"
proof (induction n rule: nat_to_string.induct)
  case (1 n)
  show ?case
  proof (cases "n < 10")
    case True
    then show ?thesis
      by (subst nat_to_string.simps) (simp add: digits_to_nat_def digit_char_props(1))
  next
    case False
    have "n mod 10 < 10" by simp
    with False 1 show ?thesis
      by (subst nat_to_string.simps) (simp add: digits_to_nat_snoc digit_char_props(1))
  qed
qed

lemma nat_to_string_inj: "nat_to_string m = nat_to_string n \<Longrightarrow> m = n"
  by (metis digits_to_nat_nat_to_string)

lemma nat_to_string_digits: "c \<in> set (nat_to_string n) \<Longrightarrow> c \<noteq> CHR ''-''"
proof (induction n rule: nat_to_string.induct)
  case (1 n)
  show ?case
  proof (cases "n < 10")
    case True
    with "1.prems" show ?thesis
      by (subst (asm) nat_to_string.simps) (simp add: digit_char_props(3))
  next
    case False
    have "digit_char (n mod 10) \<noteq> CHR ''-''" by (rule digit_char_props(3)) simp
    with False 1 show ?thesis
      by (subst (asm) nat_to_string.simps) auto
  qed
qed

lemma nat_to_string_not_Nil: "nat_to_string n \<noteq> []"
  by (subst nat_to_string.simps) simp

lemma number_to_string_Fin_inj:
  assumes "number_to_string (Fin i) = number_to_string (Fin j)"
  shows "i = j"
proof -
  have neg: "CHR ''-'' # nat_to_string a \<noteq> nat_to_string b" for a b
  proof
    assume "CHR ''-'' # nat_to_string a = nat_to_string b"
    then have "CHR ''-'' \<in> set (nat_to_string b)" by (metis list.set_intros(1))
    then show False using nat_to_string_digits by blast
  qed
  show ?thesis
  proof (cases "i < 0")
    case True
    show ?thesis
    proof (cases "j < 0")
      case j: True
      with True assms have "nat (- i) = nat (- j)" by (simp add: nat_to_string_inj)
      with True j show ?thesis by simp
    next
      case False
      with True assms neg show ?thesis by simp
    qed
  next
    case False
    show ?thesis
    proof (cases "j < 0")
      case True
      with False assms neg[of "nat (- j)" "nat i"] show ?thesis by simp
    next
      case j: False
      with False assms have "nat i = nat j" by (simp add: nat_to_string_inj)
      with False j show ?thesis by simp
    qed
  qed
qed

lemma nat_to_string_three_digits:
  assumes "100 \<le> n" and "n < 1000"
  shows "nat_to_string n =
           [digit_char (n div 100), digit_char (n div 10 mod 10), digit_char (n mod 10)]"
proof -
  have a: "\<not> n < 10" and b: "\<not> n div 10 < 10" and c: "n div 10 div 10 < 10"
    using assms by simp_all
  have d: "n div 10 div 10 = n div 100" by (simp add: div_mult2_eq[symmetric])
  have "nat_to_string n = nat_to_string (n div 10) @ [digit_char (n mod 10)]"
    using a by (subst nat_to_string.simps) simp
  also have "nat_to_string (n div 10) =
      nat_to_string (n div 10 div 10) @ [digit_char (n div 10 mod 10)]"
    using b by (subst nat_to_string.simps) simp
  also have "nat_to_string (n div 10 div 10) = [digit_char (n div 10 div 10)]"
    using c by (subst nat_to_string.simps) simp
  finally show ?thesis by (simp add: d)
qed

text \<open>The class of a status code: 400 for the codes from 400 to 499, 500 for 500 to 599.\<close>

lemma codeClass_client: "400 \<le> c \<Longrightarrow> c \<le> 499 \<Longrightarrow> codeClass (Fin c) = Fin 400"
proof -
  assume c: "400 \<le> c" "c \<le> 499"
  then have "nat c div 100 = 4" by simp
  with c nat_to_string_three_digits[of "nat c"]
  have "take 1 (number_to_string (Fin c)) = [digit_char 4]" by simp
  then show ?thesis
    by (simp add: codeClass_def digit_char_def is_digit_def digit_val_def digits_to_nat_def)
qed

lemma codeClass_server: "500 \<le> c \<Longrightarrow> c \<le> 599 \<Longrightarrow> codeClass (Fin c) = Fin 500"
proof -
  assume c: "500 \<le> c" "c \<le> 599"
  then have "nat c div 100 = 5" by simp
  with c nat_to_string_three_digits[of "nat c"]
  have "take 1 (number_to_string (Fin c)) = [digit_char 5]" by simp
  then show ?thesis
    by (simp add: codeClass_def digit_char_def is_digit_def digit_val_def digits_to_nat_def)
qed

section \<open>The exported table\<close>

lemma forEachCode_synthesized:
  assumes "400 \<le> c" and "c \<le> 599"
  shows "forEachCode toId (c, p) ex =
           AList.update (toId p) (synthesized toId c p)
             (AList.update (number_to_string (Fin c)) (synthesized toId c p) ex)"
proof (cases "c \<le> 499")
  case True
  with assms codeClass_client[of c] show ?thesis
    by (simp add: forEachCode_def Let_def synthesized_def createClientErrorConstructor_def)
next
  case False
  with assms codeClass_server[of c] show ?thesis
    by (simp add: forEachCode_def Let_def synthesized_def createServerErrorConstructor_def)
qed

lemma forEachCode_other:
  assumes "key \<noteq> toId (snd entry)" and "key \<noteq> number_to_string (Fin (fst entry))"
  shows "map_of (forEachCode toId entry ex) key = map_of ex key"
  using assms by (simp add: forEachCode_def Let_def update_conv' split: option.splits)

lemma fold_forEachCode_other:
  assumes "\<forall>entry \<in> set reg. key \<noteq> toId (snd entry) \<and> key \<noteq> number_to_string (Fin (fst entry))"
  shows "map_of (fold (forEachCode toId) reg ex) key = map_of ex key"
  using assms by (induction reg arbitrary: ex) (simp_all add: forEachCode_other)

lemma exports_code_key:
  assumes "distinct (map fst reg)" and "(c, p) \<in> set reg" and "400 \<le> c" and "c \<le> 599"
    and "\<forall>other \<in> set reg. toId (snd other) \<noteq> number_to_string (Fin c)"
  shows "map_of (fold (forEachCode toId) reg ex) (number_to_string (Fin c)) =
           Some (synthesized toId c p)"
  using assms(1,2,5)
proof (induction reg arbitrary: ex)
  case Nil
  then show ?case by simp
next
  case (Cons entry rest)
  show ?case
  proof (cases "entry = (c, p)")
    case True
    have "\<forall>other \<in> set rest. number_to_string (Fin c) \<noteq> toId (snd other) \<and>
        number_to_string (Fin c) \<noteq> number_to_string (Fin (fst other))"
    proof
      fix other assume o: "other \<in> set rest"
      with Cons.prems(3) have "number_to_string (Fin c) \<noteq> toId (snd other)" by force
      moreover from o Cons.prems(1) True have "fst other \<noteq> c" by force
      then have "number_to_string (Fin c) \<noteq> number_to_string (Fin (fst other))"
        using number_to_string_Fin_inj by blast
      ultimately show "number_to_string (Fin c) \<noteq> toId (snd other) \<and>
        number_to_string (Fin c) \<noteq> number_to_string (Fin (fst other))" by simp
    qed
    from fold_forEachCode_other[OF this] True Cons.prems(3) show ?thesis
      by (simp add: forEachCode_synthesized[OF assms(3,4)] update_conv')
  next
    case False
    with Cons.prems have "(c, p) \<in> set rest" "distinct (map fst rest)"
      "\<forall>other \<in> set rest. toId (snd other) \<noteq> number_to_string (Fin c)"
      by simp_all
    from Cons.IH[OF this(2,1,3)] show ?thesis by simp
  qed
qed

lemma exports_name_key:
  assumes "distinct (map (\<lambda>entry. toId (snd entry)) reg)" and "(c, p) \<in> set reg"
    and "400 \<le> c" and "c \<le> 599"
    and "\<forall>other \<in> set reg. toId p \<noteq> number_to_string (Fin (fst other))"
  shows "map_of (fold (forEachCode toId) reg ex) (toId p) = Some (synthesized toId c p)"
  using assms(1,2,5)
proof (induction reg arbitrary: ex)
  case Nil
  then show ?case by simp
next
  case (Cons entry rest)
  show ?case
  proof (cases "entry = (c, p)")
    case True
    have "\<forall>other \<in> set rest. toId p \<noteq> toId (snd other) \<and>
        toId p \<noteq> number_to_string (Fin (fst other))"
    proof
      fix other assume o: "other \<in> set rest"
      with Cons.prems(3) have "toId p \<noteq> number_to_string (Fin (fst other))" by force
      moreover from o Cons.prems(1) True have "toId p \<noteq> toId (snd other)" by force
      ultimately show "toId p \<noteq> toId (snd other) \<and>
        toId p \<noteq> number_to_string (Fin (fst other))" by simp
    qed
    from fold_forEachCode_other[OF this] True show ?thesis
      by (simp add: forEachCode_synthesized[OF assms(3,4)] update_conv')
  next
    case False
    with Cons.prems have "(c, p) \<in> set rest" "distinct (map (\<lambda>entry. toId (snd entry)) rest)"
      "\<forall>other \<in> set rest. toId p \<noteq> number_to_string (Fin (fst other))"
      by simp_all
    from Cons.IH[OF this(2,1,3)] show ?thesis by simp
  qed
qed

lemma wf_registry_exports:
  assumes "wf_registry toId reg" and "(c, p) \<in> set reg" and "400 \<le> c" and "c \<le> 599"
  shows "exports_at (populateConstructorExports toId reg ex) (Fin c) = Some (synthesized toId c p)"
    and "map_of (populateConstructorExports toId reg ex) (toId p) = Some (synthesized toId c p)"
    and "statuses_message reg (Fin c) = Str p"
proof -
  from assms(1) have d: "distinct (map fst reg)"
    and n: "distinct (map (\<lambda>entry. toId (snd entry)) reg)"
    and x: "\<forall>entry \<in> set reg. \<forall>other \<in> set reg.
         toId (snd other) \<noteq> number_to_string (Fin (fst entry))"
    by (simp_all add: wf_registry_def)
  from x assms(2)
  have "\<forall>other \<in> set reg. toId (snd other) \<noteq> number_to_string (Fin (fst (c, p)))"
    by blast
  then have x1: "\<forall>other \<in> set reg. toId (snd other) \<noteq> number_to_string (Fin c)"
    by simp
  from x assms(2)
  have "\<forall>other \<in> set reg. toId (snd (c, p)) \<noteq> number_to_string (Fin (fst other))"
    by blast
  then have x2: "\<forall>other \<in> set reg. toId p \<noteq> number_to_string (Fin (fst other))"
    by simp
  show "exports_at (populateConstructorExports toId reg ex) (Fin c) = Some (synthesized toId c p)"
    unfolding exports_at_def populateConstructorExports_def
    by (rule exports_code_key[OF d assms(2,3,4) x1])
  show "map_of (populateConstructorExports toId reg ex) (toId p) = Some (synthesized toId c p)"
    unfolding populateConstructorExports_def
    by (rule exports_name_key[OF n assms(2,3,4) x2])
  from d assms(2) have "map_of reg c = Some p" by simp
  then show "statuses_message reg (Fin c) = Str p" by simp
qed

section \<open>A registered code from 400 to 599\<close>

lemma resolve_status_in_range:
  "400 \<le> c \<Longrightarrow> c \<le> 599 \<Longrightarrow> resolve_status reg (Num (Fin c)) = Fin c"
  by (simp add: resolve_status_def out_of_range_def)

lemma createError_by_code:
  assumes ex: "exports_at ex (Fin (code C)) = Some C"
    and range: "400 \<le> code C" "code C \<le> 599"
    and phrase: "statuses_message reg (Fin (code C)) = Str p"
    and scan: "scan_args (heap s) 0 args initial_vars =
                 Inr (initial_vars\<lparr>v_status := Num (Fin (code C)), v_msg := mo\<rparr>)"
  shows "\<exists>e s'. createError ex reg args s = Inr (Ref e, s') \<and>
           get s' e ''status'' = Num (Fin (code C)) \<and>
           get s' e ''statusCode'' = Num (Fin (code C)) \<and>
           get s' e ''expose'' = Bool (\<not> server C) \<and>
           instanceof_cls (heap s' e) C \<and>
           get s' e ''message'' = Str (case mo of Some t \<Rightarrow> t | None \<Rightarrow> p)"
proof -
  let ?v = "initial_vars\<lparr>v_status := Num (Fin (code C)), v_msg := mo\<rparr>"
  let ?s1 = "advise (Num (Fin (code C))) s"
  have vs: "v_status ?v = Num (Fin (code C))" "v_msg ?v = mo" "v_err ?v = None"
    "v_props ?v = None"
    by (simp_all add: initial_vars_def)
  have st: "resolve_status reg (Num (Fin (code C))) = Fin (code C)"
    using range by (simp add: resolve_status_in_range)
  have H: "resolve_constructor ex (Fin (code C)) = Some C"
    using ex by (simp add: resolve_constructor_def)
  obtain s2 where c: "CodeError_constructor reg C mo ?s1 = Inr (next_addr ?s1, s2)"
    using CodeError_constructor_returns by blast
  let ?e = "next_addr ?s1"
  note q = CodeError_constructor_post[OF c]
  have ce: "construct_error reg (resolve_constructor ex (resolve_status reg (v_status ?v)))
      (v_msg ?v) (resolve_status reg (v_status ?v)) (advise (v_status ?v) s) = Inr (?e, s2)"
    unfolding vs st H using c by (simp add: construct_error_def)
  have nd: "\<not> must_decorate (Some C) ?e (Fin (code C)) s2"
    using q(3,5) by (simp add: must_decorate_def instanceof_cls_def strict_eq_def)
  from createError_fresh[OF scan vs(3) ce]
  have "createError ex reg args s =
      Inr (Ref ?e, merge_props ?e None
        (if must_decorate (Some C) ?e (Fin (code C)) s2 then decorate ?e (Fin (code C)) s2
         else s2))"
    unfolding vs st H .
  with nd have r: "createError ex reg args s = Inr (Ref ?e, s2)"
    by (simp add: merge_props_def)
  have "map_of (own_props (heap s2 ?e)) ''message'' =
      Some (Str (case mo of Some t \<Rightarrow> t | None \<Rightarrow> p))"
    unfolding q(9) phrase by (simp split: option.splits)
  from get_own[OF this] q(3,5,6,7) r show ?thesis
    by (intro exI[of _ ?e] exI[of _ s2]) (simp add: instanceof_cls_def)
qed

lemma synthesized_simps [simp]:
  "code (synthesized toId c p) = c" "server (synthesized toId c p) = (500 \<le> c)"
  by (simp_all add: synthesized_def)

text \<open>
  C1. Let \<open>c\<close> be a code of the registry from 400 to 599, with reason phrase \<open>phrase\<close>, in
  a registry whose property keys do not collide (\<open>wf_registry\<close>). The factory called with \<open>c\<close> alone returns an error with \<^verbatim>\<open>status === statusCode === c\<close>,
  with \<^verbatim>\<open>expose\<close> true exactly when \<open>c < 500\<close>, and with the reason phrase as its message;
  called with \<open>c\<close> and a string \<open>m\<close> it returns the same except that the message is \<open>m\<close>.
\<close>

theorem registered_code_factory:
  assumes "wf_registry toIdentifier reg" and "(c, phrase) \<in> set reg"
    and "400 \<le> c" and "c \<le> 599"
  shows "(\<exists>e s'. createError (populateConstructorExports toIdentifier reg ex0) reg
              [Num (Fin c)] s = Inr (Ref e, s') \<and>
            strict_eq (get s' e ''status'') (get s' e ''statusCode'') \<and>
            get s' e ''status'' = Num (Fin c) \<and>
            get s' e ''expose'' = Bool (c < 500) \<and>
            get s' e ''message'' = Str phrase) \<and>
         (\<exists>e s'. createError (populateConstructorExports toIdentifier reg ex0) reg
              [Num (Fin c), Str m] s = Inr (Ref e, s') \<and>
            strict_eq (get s' e ''status'') (get s' e ''statusCode'') \<and>
            get s' e ''status'' = Num (Fin c) \<and>
            get s' e ''expose'' = Bool (c < 500) \<and>
            get s' e ''message'' = Str m)"
proof -
  let ?ex = "populateConstructorExports toIdentifier reg ex0"
  let ?C = "synthesized toIdentifier c phrase"
  note w = wf_registry_exports(1)[OF assms, of ex0] wf_registry_exports(2)[OF assms, of ex0]
    wf_registry_exports(3)[OF assms]
  have x: "exports_at ?ex (Fin (code ?C)) = Some ?C" using w(1) by simp
  have rg: "400 \<le> code ?C" "code ?C \<le> 599" using assms(3,4) by simp_all
  have ph: "statuses_message reg (Fin (code ?C)) = Str phrase" using w(3) by simp
  have scan1: "scan_args (heap s) 0 [Num (Fin c)] initial_vars =
      Inr (initial_vars\<lparr>v_status := Num (Fin (code ?C)), v_msg := None\<rparr>)"
    by (simp add: scan_arg_def initial_vars_def)
  have scan2: "scan_args (heap s) 0 [Num (Fin c), Str m] initial_vars =
      Inr (initial_vars\<lparr>v_status := Num (Fin (code ?C)), v_msg := Some m\<rparr>)"
    by (simp add: scan_arg_def initial_vars_def)
  have sv: "(\<not> server ?C) = (c < 500)" by auto
  from createError_by_code[OF x rg ph scan1]
  have one: "\<exists>e s'. createError ?ex reg [Num (Fin c)] s = Inr (Ref e, s') \<and>
            strict_eq (get s' e ''status'') (get s' e ''statusCode'') \<and>
            get s' e ''status'' = Num (Fin c) \<and>
            get s' e ''expose'' = Bool (c < 500) \<and>
            get s' e ''message'' = Str phrase"
    unfolding sv by (auto simp: strict_eq_def)
  from createError_by_code[OF x rg ph scan2]
  have two: "\<exists>e s'. createError ?ex reg [Num (Fin c), Str m] s = Inr (Ref e, s') \<and>
            strict_eq (get s' e ''status'') (get s' e ''statusCode'') \<and>
            get s' e ''status'' = Num (Fin c) \<and>
            get s' e ''expose'' = Bool (c < 500) \<and>
            get s' e ''message'' = Str m"
    unfolding sv by (auto simp: strict_eq_def)
  from one two show ?thesis by (rule conjI)
qed

theorem registered_code_factory_witness:
  "result_get (createError sample_exports sample_statuses [Num (Fin 404)] empty_state) ''status''
     = Some (Num (Fin 404))
   \<and> result_get (createError sample_exports sample_statuses [Num (Fin 404)] empty_state)
       ''expose'' = Some (Bool True)
   \<and> result_get (createError sample_exports sample_statuses [Num (Fin 404)] empty_state)
       ''message'' = Some (Str ''Not Found'')
   \<and> result_get (createError sample_exports sample_statuses [Num (Fin 500), Str ''boom'']
       empty_state) ''status'' = Some (Num (Fin 500))
   \<and> result_get (createError sample_exports sample_statuses [Num (Fin 500), Str ''boom'']
       empty_state) ''expose'' = Some (Bool False)
   \<and> result_get (createError sample_exports sample_statuses [Num (Fin 500), Str ''boom'']
       empty_state) ''message'' = Some (Str ''boom'')"
proof -
  have wf: "wf_registry sample_toIdentifier sample_statuses" by code_simp
  have m1: "(404, ''Not Found'') \<in> set sample_statuses"
    and m2: "(500, ''Internal Server Error'') \<in> set sample_statuses"
    by (simp_all add: sample_statuses_def)
  have r1: "(400::int) \<le> 404" "(404::int) \<le> 599" and r2: "(400::int) \<le> 500" "(500::int) \<le> 599"
    by simp_all
  from registered_code_factory [OF wf m1 r1, of "[]" empty_state "''gone''"]
    registered_code_factory [OF wf m2 r2, of "[]" empty_state "''boom''"]
  show ?thesis
    by (auto simp: result_get_def sample_exports_def)
qed

text \<open>
  C6. Let \<open>c\<close> be a code of the registry from 400 to 599, with reason phrase \<open>phrase\<close>, in
  a registry whose property keys do not collide (\<open>wf_registry\<close>). The exported table holds one and the same concrete type under the key \<open>c\<close> and under the
  identifier made from the phrase. Constructed with no message, that type gives an
  instance whose message is the reason phrase; whatever the message, \<^verbatim>\<open>expose\<close> is true
  for a code below 500 and false from 500 on.
\<close>

theorem registered_code_exported:
  assumes "wf_registry toIdentifier reg" and "(c, phrase) \<in> set reg"
    and "400 \<le> c" and "c \<le> 599"
  shows "\<exists>C. exports_at (populateConstructorExports toIdentifier reg ex0) (Fin c) = Some C \<and>
           map_of (populateConstructorExports toIdentifier reg ex0) (toIdentifier phrase)
             = Some C \<and>
           (\<exists>e s'. CodeError_constructor reg C None s = Inr (e, s') \<and>
                   instanceof_cls (heap s' e) C \<and>
                   get s' e ''status'' = Num (Fin c) \<and>
                   get s' e ''statusCode'' = Num (Fin c) \<and>
                   get s' e ''message'' = Str phrase) \<and>
           (\<forall>m e s'. CodeError_constructor reg C m s = Inr (e, s') \<longrightarrow>
                     get s' e ''expose'' = Bool (c < 500))"
proof -
  let ?C = "synthesized toIdentifier c phrase"
  note w = wf_registry_exports(1)[OF assms, of ex0] wf_registry_exports(2)[OF assms, of ex0]
    wf_registry_exports(3)[OF assms]
  obtain s' where c: "CodeError_constructor reg ?C None s = Inr (next_addr s, s')"
    using CodeError_constructor_returns by blast
  note p = CodeError_constructor_post[OF c]
  from p(9) w(3) have "map_of (own_props (heap s' (next_addr s))) ''message'' = Some (Str phrase)"
    by simp
  from get_own[OF this] p(3,5,6) c
  have built: "\<exists>e s'. CodeError_constructor reg ?C None s = Inr (e, s') \<and>
      instanceof_cls (heap s' e) ?C \<and> get s' e ''status'' = Num (Fin c) \<and>
      get s' e ''statusCode'' = Num (Fin c) \<and> get s' e ''message'' = Str phrase"
    by (intro exI[of _ "next_addr s"] exI[of _ s']) (simp add: instanceof_cls_def)
  have expose: "get t e ''expose'' = Bool (c < 500)"
    if "CodeError_constructor reg ?C m s = Inr (e, t)" for m e t
    using CodeError_constructor_post(7)[OF that] by auto
  from w(1,2) built expose show ?thesis by (intro exI[of _ ?C]) blast
qed

theorem registered_code_exported_witness:
  "exports_at sample_exports (Fin 404) = Some NotFoundError
   \<and> map_of sample_exports ''NotFound'' = Some NotFoundError
   \<and> built_get (CodeError_constructor sample_statuses NotFoundError None empty_state) ''message''
       = Some (Str ''Not Found'')
   \<and> built_get (CodeError_constructor sample_statuses NotFoundError None empty_state) ''expose''
       = Some (Bool True)"
proof -
  have wf: "wf_registry sample_toIdentifier sample_statuses" by code_simp
  have m1: "(404, ''Not Found'') \<in> set sample_statuses"
    by (simp add: sample_statuses_def)
  have r1: "(400::int) \<le> 404" "(404::int) \<le> 599" by simp_all
  have x: "exports_at sample_exports (Fin 404) = Some NotFoundError" by code_simp
  have i: "sample_toIdentifier ''Not Found'' = ''NotFound''"
    by (simp add: sample_toIdentifier_def)
  from registered_code_exported [OF wf m1 r1, of "[]" empty_state] x i
  show ?thesis
    by (auto simp: sample_exports_def built_get_def)
qed

end
